theory Spec2Isabelle
  imports Complex_Main "HOL-Library.AList" "HOL-Library.Multiset" "HOL-Library.Code_Target_Nat"
begin

section \<open>Polkadot reducers: identity resolution\<close>

text \<open>
  \<^verbatim>\<open>identityReducer(address, identity)\<close> of \<^verbatim>\<open>polkadotV0-reducers.js\<close>.
  An identity field is a string or is missing (\<^verbatim>\<open>undefined\<close>, here \<open>None\<close>).
  JavaScript takes a string for true when it is not empty; a missing field is false.
\<close>

record identity =
  displayParent :: "string option"
  display :: "string option"

definition truthy :: "string option \<Rightarrow> bool" where
  "truthy v = (case v of None \<Rightarrow> False | Some s \<Rightarrow> s \<noteq> [])"

text \<open>What a template literal prints for a field.\<close>

definition template :: "string option \<Rightarrow> string" where
  "template v = (case v of None \<Rightarrow> ''undefined'' | Some s \<Rightarrow> s)"

definition identityReducer :: "string \<Rightarrow> identity \<Rightarrow> string" where
  "identityReducer address identity =
     (if truthy (displayParent identity) \<and> displayParent identity \<noteq> Some [] \<and>
         truthy (display identity) \<and> display identity \<noteq> Some []
      then template (displayParent identity) @ ''/'' @ template (display identity)
      else (if truthy (display identity) \<and> display identity \<noteq> Some []
            then template (display identity)
            else address))"

section \<open>Polkadot reducers: staking aggregation\<close>

text \<open>
  \<^verbatim>\<open>aggregateLunieStaking(messages)\<close>. A message is read through
  \<^verbatim>\<open>toHuman().section\<close>, \<^verbatim>\<open>toHuman().method\<close> and \<^verbatim>\<open>args\<close>; of the arguments the
  function reads \<^verbatim>\<open>args.value\<close>, \<^verbatim>\<open>args.max_additional\<close> and \<^verbatim>\<open>args[0].toHuman()\<close>.
  Amounts are JavaScript numbers, taken here as integers, and \<^verbatim>\<open>+\<close> as exact addition.
  The copy \<^verbatim>\<open>JSON.parse(JSON.stringify(args))\<close> of plain data is the data itself.
\<close>

record args =
  arg_value :: int
  max_additional :: int
  arg0 :: "string list"

record message =
  msg_section :: string
  msg_method :: string
  msg_args :: args

record aggregatedStaking =
  agg_method :: string
  agg_section :: string
  validators :: "string list"
  amount :: int













section \<open>JavaScript objects and numbers\<close>

text \<open>A number as a template literal prints it: decimal digits, no leading zero.\<close>

fun decimal :: "nat \<Rightarrow> string" where
  "decimal n = (if n < 10 then [char_of (48 + n)] else decimal (n div 10) @ [char_of (48 + n mod 10)])"

declare decimal.simps [simp del]

text \<open>
  An object, as far as the reducers use one: its own string-keyed properties, in the order
  they were created. Reading a key that is missing gives \<^verbatim>\<open>undefined\<close> (\<open>None\<close>); writing an
  existing key keeps its place, writing a new key appends it. Properties inherited from
  \<^verbatim>\<open>Object.prototype\<close> are not modelled, so keys such as \<^verbatim>\<open>constructor\<close> are outside
  this model.
\<close>

type_synonym 'v object = "(string \<times> 'v) list"

definition getProperty :: "'v object \<Rightarrow> string \<Rightarrow> 'v option" where
  "getProperty obj k = map_of obj k"

primrec setProperty :: "string \<Rightarrow> 'v \<Rightarrow> 'v object \<Rightarrow> 'v object" where
  "setProperty k v [] = [(k, v)]"
| "setProperty k v (p # ps) = (if fst p = k then (k, v) # ps else p # setProperty k v ps)"

text \<open>
  \<^verbatim>\<open>Object.entries\<close> and the spread \<^verbatim>\<open>{...obj}\<close> visit the keys that are array indices first
  (canonical decimal numerals below \<open>2^32 - 1\<close>), in ascending order, and then the other keys
  in the order of creation.
\<close>

definition isDigit :: "char \<Rightarrow> bool" where
  "isDigit c = (48 \<le> (of_char c :: nat) \<and> (of_char c :: nat) \<le> 57)"

definition digitsValue :: "string \<Rightarrow> nat" where
  "digitsValue s = foldl (\<lambda>n c. 10 * n + (of_char c - 48)) 0 s"

definition isArrayIndex :: "string \<Rightarrow> bool" where
  "isArrayIndex k =
     (k \<noteq> [] \<and> list_all isDigit k \<and> decimal (digitsValue k) = k \<and> digitsValue k < 2 ^ 32 - 1)"

definition entries :: "'v object \<Rightarrow> (string \<times> 'v) list" where
  "entries obj =
     sort_key (\<lambda>p. digitsValue (fst p)) (filter (\<lambda>p. isArrayIndex (fst p)) obj) @
     filter (\<lambda>p. \<not> isArrayIndex (fst p)) obj"




text \<open>
  A \<^verbatim>\<open>BigNumber\<close>: a decimal number of any size, an infinity or \<^verbatim>\<open>NaN\<close>. With the library's
  settings as shipped (\<^verbatim>\<open>DECIMAL_PLACES\<close> 20, \<^verbatim>\<open>ROUND_HALF_UP\<close>) a quotient is rounded to
  20 decimal places, half away from zero; a division by zero gives an infinity, or \<^verbatim>\<open>NaN\<close>
  for \<open>0 / 0\<close>. \<^verbatim>\<open>toNumber\<close> is taken as exact, as all arithmetic on numbers is here.
\<close>

datatype bigNumber = Finite rat | PlusInfinity | MinusInfinity | NaN




section \<open>Polkadot reducers: the token-weighted tally\<close>




section \<open>Polkadot reducers: reward aggregation\<close>



definition orElse :: "'a option \<Rightarrow> 'a \<Rightarrow> 'a" where
  "orElse v d = (case v of None \<Rightarrow> d | Some x \<Rightarrow> x)"

definition orZero :: "rat option \<Rightarrow> rat" where
  "orZero v = (case v of None \<Rightarrow> 0 | Some x \<Rightarrow> (if x = 0 then 0 else x))"






section \<open>Cosmos data source: the retrieval layer\<close>

text \<open>
  What \<^verbatim>\<open>this.get\<close> can throw. An HTTP answer outside 2xx is an error object with
  \<^verbatim>\<open>extensions.response.status\<close> and \<^verbatim>\<open>extensions.response.body.error\<close>; the body's
  error text is kept as \<^verbatim>\<open>JSON.parse\<close> reads it: not JSON at all, JSON without a string
  \<^verbatim>\<open>message\<close>, or JSON with one. A transport failure is an error object with no
  \<^verbatim>\<open>extensions\<close>. The other constructors are the errors the data source raises itself.
\<close>

datatype errorLog = NotJson | NoMessage | Message string

datatype jsError =
    HttpError nat errorLog
  | FetchError string
  | UserInputError string
  | SyntaxError
  | TypeError

text \<open>
  The world around one data source: the URLs handed to \<^verbatim>\<open>this.get\<close> so far, the delays
  slept with \<^verbatim>\<open>setTimeout\<close>, the lines written with \<^verbatim>\<open>console.error\<close>, the size of the
  response cache and the number of memoized results. What the HTTP cache stores on a
  request is the library's business and is not modelled: \<open>cacheSize\<close> changes only by the
  flush.

  The upstream is any function from the number of requests made before and the URL to an
  answer, so it may answer the same URL differently each time.
\<close>

record world =
  requests :: "string list"
  sleeps :: "nat list"
  console :: "string list"
  cacheSize :: nat
  memoizedResults :: nat

type_synonym 'r upstream = "nat \<Rightarrow> string \<Rightarrow> jsError + 'r"

record network =
  network_id :: string
  address_prefix :: string
  title :: string

definition get :: "'r upstream \<Rightarrow> string \<Rightarrow> world \<Rightarrow> (jsError + 'r) \<times> world" where
  "get up url w =
     (up (length (requests w)) url,
      w\<lparr>requests := requests w @ [url], memoizedResults := Suc (memoizedResults w)\<rparr>)"

definition flush :: "world \<Rightarrow> world" where
  "flush w = w\<lparr>cacheSize := 0\<rparr>"

definition clearMemoized :: "world \<Rightarrow> world" where
  "clearMemoized w = w\<lparr>memoizedResults := 0\<rparr>"

definition setTimeout :: "nat \<Rightarrow> world \<Rightarrow> world" where
  "setTimeout ms w = w\<lparr>sleeps := sleeps w @ [ms]\<rparr>"

definition console_error :: "string \<Rightarrow> world \<Rightarrow> world" where
  "console_error line w = w\<lparr>console := console w @ [line]\<rparr>"

definition giveUpMessage :: "string \<Rightarrow> network \<Rightarrow> string" where
  "giveUpMessage url net =
     ''Error for query '' @ url @ '' in network '' @ network_id net @ '' (tried 3 times)''"

function getRetry :: "network \<Rightarrow> 'r upstream \<Rightarrow> string \<Rightarrow> nat \<Rightarrow> world \<Rightarrow> (jsError + 'r) \<times> world" where
  "getRetry net up url intent w =
     (case get up url (clearMemoized (if 100000 < cacheSize w then flush w else w)) of
        (Inr response, w') \<Rightarrow> (Inr response, w')
      | (Inl error, w') \<Rightarrow>
          (if 3 \<le> intent
           then (Inl error, console_error (giveUpMessage url net) w')
           else getRetry net up url (intent + 1) (setTimeout 1000 w')))"
  by pat_completeness auto
termination
  by (relation "measure (\<lambda>(net, up, url, intent, w). 3 - intent)") auto

declare getRetry.simps [simp del]

definition query :: "network \<Rightarrow> 'r upstream \<Rightarrow> string \<Rightarrow> world \<Rightarrow> (jsError + 'r) \<times> world" where
  "query net up url w = getRetry net up url 0 w"

subsection \<open>Paginated accumulation\<close>

definition pagination :: "nat \<Rightarrow> string" where
  "pagination page = ''&limit=1000000000&page='' @ decimal page"

text \<open>
  One page of the answer: \<^verbatim>\<open>{ txs, total_count }\<close>. The field \<open>total_count\<close> holds what
  \<^verbatim>\<open>Number(total_count)\<close> gives, \<open>None\<close> for \<^verbatim>\<open>NaN\<close>; a comparison with \<^verbatim>\<open>NaN\<close> is false.
\<close>

record 'tx txsPage =
  txs :: "'tx list"
  total_count :: "int option"

definition lessThanNumber :: "nat \<Rightarrow> int option \<Rightarrow> bool" where
  "lessThanNumber n c = (case c of None \<Rightarrow> False | Some k \<Rightarrow> int n < k)"

text \<open>
  \<^verbatim>\<open>loadPaginatedTxs(url, page = 1, totalAmount = 0)\<close> calls itself for the next page with
  nothing that bounds the number of calls, so the first argument here is fuel: one unit for
  each call. With no fuel left the result is \<open>None\<close>: the function has not returned
  yet. Otherwise it is \<open>Some\<close> of the error thrown or of the list returned.
\<close>

fun loadPaginatedTxs ::
  "nat \<Rightarrow> network \<Rightarrow> 'tx txsPage upstream \<Rightarrow> string \<Rightarrow> nat \<Rightarrow> nat \<Rightarrow> world
     \<Rightarrow> (jsError + 'tx list) option \<times> world" where
  "loadPaginatedTxs 0 net up url page totalAmount w = (None, w)"
| "loadPaginatedTxs (Suc fuel) net up url page totalAmount w =
     (case getRetry net up (url @ pagination page) 0 w of
        (Inl error, w') \<Rightarrow> (Some (Inl error), w')
      | (Inr response, w') \<Rightarrow>
          (let allTxs = [] @ txs response
           in if lessThanNumber (length allTxs + totalAmount) (total_count response)
              then (case loadPaginatedTxs fuel net up url (page + 1) (totalAmount + length allTxs) w' of
                      (None, w'') \<Rightarrow> (None, w'')
                    | (Some (Inl error), w'') \<Rightarrow> (Some (Inl error), w'')
                    | (Some (Inr rest), w'') \<Rightarrow> (Some (Inr (allTxs @ rest)), w''))
              else (Some (Inr allTxs), w')))"

text \<open>
  The words of the specification: the pages the loop needs, counted from the pages an
  upstream would serve, when the count so far is \<open>totalAmount\<close> and the total is \<open>n\<close>.
\<close>

fun pagesFetched :: "nat \<Rightarrow> nat \<Rightarrow> 'tx list list \<Rightarrow> nat" where
  "pagesFetched n totalAmount [] = 0"
| "pagesFetched n totalAmount (p # ps) =
     (if length p + totalAmount < n then Suc (pagesFetched n (totalAmount + length p) ps) else 1)"

subsection \<open>Operations of the data source\<close>

definition startsWith :: "string \<Rightarrow> string \<Rightarrow> bool" where
  "startsWith s p = (take (length p) s = p)"

text \<open>\<^verbatim>\<open>checkAddress(address)\<close>: the error it throws, if it throws.\<close>

definition checkAddress :: "network \<Rightarrow> string \<Rightarrow> jsError option" where
  "checkAddress net address =
     (if \<not> startsWith address (address_prefix net)
      then Some (UserInputError
        (''The address you entered doesn'' @ [CHR 0x27] @ ''t belong to the '' @ title net @ '' network''))
      else None)"

datatype delegationEnum = ACTIVE | INACTIVE

text \<open>
  The reducers of the Cosmos data source (\<^verbatim>\<open>cosmosV0-reducers\<close>) and the helpers of
  \<^verbatim>\<open>../tools\<close> are not among the source files: \<open>delegationReducer\<close>, \<open>decodeB32\<close>,
  \<open>encodeB32\<close> and \<open>pubkeyToAddress\<close> are parameters below. Of a reduced delegation only
  the field \<^verbatim>\<open>amount\<close> is read.
\<close>

record lunieValidator =
  operatorAddress :: string

record 'a delegation =
  delegation_amount :: 'a

datatype 'a selfStake = NumberZero | ReducedAmount 'a

text \<open>
  \<^verbatim>\<open>getSelfStake(validator)\<close>. In the handler, \<^verbatim>\<open>error.extensions.response\<close> of an error
  without \<^verbatim>\<open>extensions\<close> is a \<^verbatim>\<open>TypeError\<close>; \<^verbatim>\<open>JSON.parse\<close> of a text that is not JSON
  is a \<^verbatim>\<open>SyntaxError\<close>; \<^verbatim>\<open>message.startsWith\<close> where there is no string \<^verbatim>\<open>message\<close> is a
  \<^verbatim>\<open>TypeError\<close>. Each is thrown from inside the handler, in place of the error caught.
\<close>

definition selfStakeHandler :: "jsError \<Rightarrow> jsError + 'a selfStake" where
  "selfStakeHandler error =
     (case error of
        HttpError status body \<Rightarrow>
          (if status = 500
           then (case body of
                   NotJson \<Rightarrow> Inl SyntaxError
                 | NoMessage \<Rightarrow> Inl TypeError
                 | Message message \<Rightarrow>
                     (if startsWith message ''no delegation for this'' then Inr NumberZero
                      else Inl error))
           else Inl error)
      | _ \<Rightarrow> Inl TypeError)"

definition selfDelegationUrl :: "string \<Rightarrow> string \<Rightarrow> string" where
  "selfDelegationUrl delegatorAddressFromOperator operatorAddr =
     ''staking/delegators/'' @ delegatorAddressFromOperator @ ''/delegations/'' @ operatorAddr"

definition getSelfStake ::
  "network \<Rightarrow> 'r upstream \<Rightarrow> (string \<Rightarrow> 'hex) \<Rightarrow> ('hex \<Rightarrow> string \<Rightarrow> string) \<Rightarrow>
   ('r \<Rightarrow> 'm lunieValidator_scheme \<Rightarrow> delegationEnum \<Rightarrow> ('a, 'n) delegation_scheme) \<Rightarrow>
   'm lunieValidator_scheme \<Rightarrow> world \<Rightarrow> (jsError + 'a selfStake) \<times> world" where
  "getSelfStake net up decodeB32 encodeB32 delegationReducer val w =
     (let hexDelegatorAddressFromOperator = decodeB32 (operatorAddress val);
          delegatorAddressFromOperator = encodeB32 hexDelegatorAddressFromOperator (address_prefix net)
      in case query net up (selfDelegationUrl delegatorAddressFromOperator (operatorAddress val)) w of
           (Inl error, w') \<Rightarrow> (selfStakeHandler error, w')
         | (Inr selfDelegation, w') \<Rightarrow>
             (Inr (ReducedAmount (delegation_amount (delegationReducer selfDelegation val ACTIVE))), w'))"

text \<open>
  \<^verbatim>\<open>getValidatorSigningInfo(validatorConsensusPubKey)\<close>. The answer and the result are
  objects of JSON values. \<open>pubkeyToAddress\<close> may throw. The object literal
  \<^verbatim>\<open>{ address: ..., ...response }\<close> sets \<^verbatim>\<open>address\<close> first and then copies the properties of
  the response over it.
\<close>

datatype json = JString string | JNumber int | JBool bool | JNull

definition spread :: "'v object \<Rightarrow> 'v object \<Rightarrow> 'v object" where
  "spread target source = foldl (\<lambda>obj p. setProperty (fst p) (snd p) obj) target (entries source)"

definition exceptions :: "string list" where
  "exceptions =
     [''cosmosvalconspub1zcjduepqx38v580cmd9em3n7mcgzj22jwdwks5lr3lfxl8g87vzjp7jyyszsr4xvzv'',
      ''cosmosvalconspub1zcjduepqlzmd0spn9m0m3eq9zp93d4w6e5tugamv44yqjzyacelnvra634fqnfec0r'']"

definition validatorConsensusBech32Prefix :: "network \<Rightarrow> string" where
  "validatorConsensusBech32Prefix net = address_prefix net @ ''valcons''"

definition signingInfoCatch ::
  "network \<Rightarrow> (string \<Rightarrow> string \<Rightarrow> jsError + string) \<Rightarrow> string \<Rightarrow> jsError + json object" where
  "signingInfoCatch net pubkeyToAddress validatorConsensusPubKey =
     (case pubkeyToAddress validatorConsensusPubKey (validatorConsensusBech32Prefix net) of
        Inl thrown \<Rightarrow> Inl thrown
      | Inr address \<Rightarrow>
          Inr [(''address'', JString address),
               (''missed_blocks_counter'', JString ''0''),
               (''start_height'', JString ''0'')])"

definition signingInfoUrl :: "string \<Rightarrow> string" where
  "signingInfoUrl validatorConsensusPubKey =
     ''slashing/validators/'' @ validatorConsensusPubKey @ ''/signing_info''"

definition getValidatorSigningInfo ::
  "network \<Rightarrow> json object upstream \<Rightarrow> (string \<Rightarrow> string \<Rightarrow> jsError + string) \<Rightarrow> string \<Rightarrow> world
     \<Rightarrow> (jsError + json object) \<times> world" where
  "getValidatorSigningInfo net up pubkeyToAddress validatorConsensusPubKey w =
     (if validatorConsensusPubKey \<in> set exceptions
      then (signingInfoCatch net pubkeyToAddress validatorConsensusPubKey, w)
      else (case query net up (signingInfoUrl validatorConsensusPubKey) w of
              (Inl e, w') \<Rightarrow> (signingInfoCatch net pubkeyToAddress validatorConsensusPubKey, w')
            | (Inr response, w') \<Rightarrow>
                (case pubkeyToAddress validatorConsensusPubKey (validatorConsensusBech32Prefix net) of
                   Inl thrown \<Rightarrow> (signingInfoCatch net pubkeyToAddress validatorConsensusPubKey, w')
                 | Inr address \<Rightarrow> (Inr (spread [(''address'', JString address)] response), w'))))"

text \<open>
  \<^verbatim>\<open>getDelegationsForDelegatorAddress(address)\<close>. The field \<open>balance\<close> of a raw delegation
  holds what \<^verbatim>\<open>BigNumber(delegation.balance)\<close> is; \<^verbatim>\<open>NaN\<close> compares false with everything.
  The answer is \<open>None\<close> when \<^verbatim>\<open>|| []\<close> replaces it (\<^verbatim>\<open>null\<close>, \<^verbatim>\<open>undefined\<close>).
  \<^verbatim>\<open>this.store.validators\<close> is a dictionary from operator addresses to validators.
\<close>

definition isGreaterThanOrEqualTo :: "bigNumber \<Rightarrow> rat \<Rightarrow> bool" where
  "isGreaterThanOrEqualTo x y =
     (case x of Finite v \<Rightarrow> y \<le> v | PlusInfinity \<Rightarrow> True | MinusInfinity \<Rightarrow> False | NaN \<Rightarrow> False)"

record rawDelegation =
  delegator_address :: string
  validator_address :: string
  shares :: string
  balance :: bigNumber

definition delegationsUrl :: "string \<Rightarrow> string" where
  "delegationsUrl address = ''staking/delegators/'' @ address @ ''/delegations''"

definition getDelegationsForDelegatorAddress ::
  "network \<Rightarrow> rawDelegation list option upstream \<Rightarrow> (string \<Rightarrow> 'v option) \<Rightarrow>
   (rawDelegation \<Rightarrow> 'v option \<Rightarrow> delegationEnum \<Rightarrow> 'd) \<Rightarrow> string \<Rightarrow> world
     \<Rightarrow> (jsError + 'd list) \<times> world" where
  "getDelegationsForDelegatorAddress net up storeValidators delegationReducer address w =
     (case checkAddress net address of
        Some thrown \<Rightarrow> (Inl thrown, w)
      | None \<Rightarrow>
          (case query net up (delegationsUrl address) w of
             (Inl error, w') \<Rightarrow> (Inl error, w')
           | (Inr response, w') \<Rightarrow>
               (let delegations = orElse response []
                in (Inr (map (\<lambda>delegation.
                               delegationReducer delegation
                                 (storeValidators (validator_address delegation)) ACTIVE)
                          (filter (\<lambda>delegation. isGreaterThanOrEqualTo (balance delegation) 1)
                             delegations)),
                    w'))))"

section \<open>Values for the examples and devices for the proofs\<close>

text \<open>
  An upstream whose every page is empty while it reports one transaction, and one that
  serves two given pages of \<^verbatim>\<open>/txs?sender=a\<close> and reports a given total.
\<close>

definition emptyPages :: "'tx txsPage upstream" where
  "emptyPages = (\<lambda>k u. Inr \<lparr>txs = [], total_count = Some 1\<rparr>)"

definition twoPages :: "nat list \<Rightarrow> nat list \<Rightarrow> int \<Rightarrow> nat txsPage upstream" where
  "twoPages p1 p2 n = (\<lambda>k u.
     if u = ''/txs?sender=a&limit=1000000000&page=1'' then Inr \<lparr>txs = p1, total_count = Some n\<rparr>
     else if u = ''/txs?sender=a&limit=1000000000&page=2'' then Inr \<lparr>txs = p2, total_count = Some n\<rparr>
     else Inl (HttpError 404 NotJson))"

text \<open>
  Raw delegations with balances 5, 1/2, 1 and \<^verbatim>\<open>NaN\<close>; a store that knows the first
  validator; a reducer that keeps what it is given; an address derivation that never throws.
\<close>

definition exampleDelegations :: "rawDelegation list" where
  "exampleDelegations =
     [\<lparr>delegator_address = ''cosmos1xyz'', validator_address = ''cosmosvaloper1a'',
        shares = ''5'', balance = Finite 5\<rparr>,
      \<lparr>delegator_address = ''cosmos1xyz'', validator_address = ''cosmosvaloper1b'',
        shares = ''0.5'', balance = Finite (1 / 2)\<rparr>,
      \<lparr>delegator_address = ''cosmos1xyz'', validator_address = ''cosmosvaloper1c'',
        shares = ''1'', balance = Finite 1\<rparr>,
      \<lparr>delegator_address = ''cosmos1xyz'', validator_address = ''cosmosvaloper1d'',
        shares = ''1'', balance = NaN\<rparr>]"

definition exampleStore :: "string \<Rightarrow> nat option" where
  "exampleStore a = (if a = ''cosmosvaloper1a'' then Some 1 else None)"

definition keepAll :: "rawDelegation \<Rightarrow> nat option \<Rightarrow> delegationEnum \<Rightarrow> string \<times> nat option \<times> delegationEnum" where
  "keepAll d v active = (validator_address d, v, active)"

definition exampleAddress :: "string \<Rightarrow> string \<Rightarrow> jsError + string" where
  "exampleAddress key prefix = Inr (prefix @ ''1'' @ key)"







text \<open>A world in which nothing has happened yet, and a network.\<close>

definition startWorld :: world where
  "startWorld = \<lparr>requests = [], sleeps = [], console = [], cacheSize = 0, memoizedResults = 0\<rparr>"

definition cosmosHub :: network where
  "cosmosHub = \<lparr>network_id = ''cosmos-hub-mainnet'', address_prefix = ''cosmos'', title = ''Cosmos Hub''\<rparr>"

section \<open>Identity resolution\<close>

text \<open>
  C7. For every address and identity record, \<open>identityReducer\<close> returns
  \<open>displayParent/display\<close> when both fields are set and non-empty; otherwise \<open>display\<close>
  when that is set and non-empty; otherwise the address.
\<close>

theorem identityReducer_fallback_chain:
  "(displayParent identity = Some p \<and> p \<noteq> [] \<and> display identity = Some d \<and> d \<noteq> [] \<longrightarrow>
      identityReducer address identity = p @ ''/'' @ d) \<and>
   ((displayParent identity = None \<or> displayParent identity = Some []) \<and>
      display identity = Some d \<and> d \<noteq> [] \<longrightarrow>
      identityReducer address identity = d) \<and>
   (display identity = None \<or> display identity = Some [] \<longrightarrow>
      identityReducer address identity = address)"
  by (auto simp: identityReducer_def truthy_def template_def split: option.splits)

text \<open>The examples of C7: \<open>Foo/Bar\<close>, a display name alone, and an empty display name.\<close>

theorem identityReducer_examples:
  "identityReducer ''addr1'' \<lparr>displayParent = Some ''Foo'', display = Some ''Bar''\<rparr> = ''Foo/Bar'' \<and>
   identityReducer ''addr1'' \<lparr>displayParent = None, display = Some ''Bar''\<rparr> = ''Bar'' \<and>
   identityReducer ''addr1'' \<lparr>displayParent = None, display = Some ''''\<rparr> = ''addr1''"
  using identityReducer_fallback_chain
      [of "\<lparr>displayParent = Some ''Foo'', display = Some ''Bar''\<rparr>" "''Foo''" "''Bar''" "''addr1''"]
    identityReducer_fallback_chain
      [of "\<lparr>displayParent = None, display = Some ''Bar''\<rparr>" "''x''" "''Bar''" "''addr1''"]
    identityReducer_fallback_chain
      [of "\<lparr>displayParent = None, display = Some ''''\<rparr>" "''x''" "''x''" "''addr1''"]
  by simp

section \<open>Staking aggregation\<close>





section \<open>The retry policy\<close>

lemma getRetry_success_now:
  "up (length (requests w)) url = Inr r \<Longrightarrow>
   fst (getRetry net up url intent w) = Inr r \<and>
   requests (snd (getRetry net up url intent w)) = requests w @ [url] \<and>
   sleeps (snd (getRetry net up url intent w)) = sleeps w \<and>
   console (snd (getRetry net up url intent w)) = console w"
  by (subst (1 2 3 4) getRetry.simps) (simp add: get_def clearMemoized_def flush_def)

lemma getRetry_give_up:
  "up (length (requests w)) url = Inl e \<Longrightarrow> 3 \<le> intent \<Longrightarrow>
   fst (getRetry net up url intent w) = Inl e \<and>
   requests (snd (getRetry net up url intent w)) = requests w @ [url] \<and>
   sleeps (snd (getRetry net up url intent w)) = sleeps w \<and>
   console (snd (getRetry net up url intent w)) = console w @ [giveUpMessage url net]"
  by (subst (1 2 3 4) getRetry.simps) (simp add: get_def clearMemoized_def flush_def console_error_def)

lemma getRetry_again:
  "up (length (requests w)) url = Inl e \<Longrightarrow> intent < 3 \<Longrightarrow>
   getRetry net up url intent w =
     getRetry net up url (intent + 1)
       (setTimeout 1000 (snd (get up url (clearMemoized (if 100000 < cacheSize w then flush w else w)))))"
  by (subst getRetry.simps) (simp add: get_def clearMemoized_def flush_def)

lemma attempt_world:
  "requests (setTimeout 1000 (snd (get up url (clearMemoized (if 100000 < cacheSize w then flush w else w))))) =
     requests w @ [url]"
  "sleeps (setTimeout 1000 (snd (get up url (clearMemoized (if 100000 < cacheSize w then flush w else w))))) =
     sleeps w @ [1000]"
  "console (setTimeout 1000 (snd (get up url (clearMemoized (if 100000 < cacheSize w then flush w else w))))) =
     console w"
  by (simp_all add: get_def clearMemoized_def flush_def setTimeout_def)


text \<open>All attempts fail: the error of the last one, after the retries that were left.\<close>

lemma getRetry_fails:
  "k + intent = 3 \<Longrightarrow> (\<forall>i\<le>k. isl (up (length (requests w) + i) url)) \<Longrightarrow>
   fst (getRetry net up url intent w) = up (length (requests w) + k) url \<and>
   requests (snd (getRetry net up url intent w)) = requests w @ replicate (Suc k) url \<and>
   sleeps (snd (getRetry net up url intent w)) = sleeps w @ replicate k 1000 \<and>
   console (snd (getRetry net up url intent w)) = console w @ [giveUpMessage url net]"
proof (induction k arbitrary: intent w)
  case 0
  then obtain e where e: "up (length (requests w)) url = Inl e" by (auto simp: isl_def)
  from 0 have "3 \<le> intent" by simp
  from getRetry_give_up [of up w url e intent net] e this show ?case by simp
next
  case (Suc k)
  from Suc.prems(2) have "isl (up (length (requests w)) url)" by (metis add.right_neutral le0)
  then obtain e where e: "up (length (requests w)) url = Inl e" by (auto simp: isl_def)
  from Suc.prems(1) have lt: "intent < 3" by simp
  define w' where
    "w' = setTimeout 1000 (snd (get up url (clearMemoized (if 100000 < cacheSize w then flush w else w))))"
  have w': "getRetry net up url intent w = getRetry net up url (intent + 1) w'"
        "requests w' = requests w @ [url]" "sleeps w' = sleeps w @ [1000]" "console w' = console w"
    unfolding w'_def using getRetry_again [of up w url e intent net] e lt
    by (simp_all add: attempt_world)
  have a: "k + (intent + 1) = 3" using Suc.prems(1) by simp
  have b: "\<forall>i\<le>k. isl (up (length (requests w') + i) url)"
  proof (intro allI impI)
    fix i assume "i \<le> k"
    then have "isl (up (length (requests w) + Suc i) url)"
      using Suc.prems(2) [rule_format, of "Suc i"] by simp
    then show "isl (up (length (requests w') + i) url)" by (simp add: w'(2))
  qed
  from Suc.IH [OF a b] show ?case
    by (simp add: w' replicate_append_same)
qed

lemma query_first_try:
  "up (length (requests w)) url = Inr r \<Longrightarrow> fst (query net up url w) = Inr r"
  unfolding query_def using getRetry_success_now [of up w url r net 0] by simp

lemma query_all_fail:
  "\<forall>i\<le>3. up (length (requests w) + i) url = Inl e \<Longrightarrow> fst (query net up url w) = Inl e"
  unfolding query_def using getRetry_fails [of 3 0 up w url net] by simp




section \<open>Paginated accumulation\<close>

lemma getRetry_first_try:
  assumes "up (length (requests w)) url = Inr r"
  shows "\<exists>w'. getRetry net up url 0 w = (Inr r, w') \<and> requests w' = requests w @ [url]"
proof -
  obtain res w' where eq: "getRetry net up url 0 w = (res, w')" by (cases "getRetry net up url 0 w")
  from getRetry_success_now [of up w url r net 0] assms eq show ?thesis by simp
qed

lemma loadPaginatedTxs_stuck:
  assumes stuck: "\<forall>k u. up k u = Inr \<lparr>txs = [], total_count = Some 1\<rparr>"
  shows "fst (loadPaginatedTxs fuel net up url page 0 w) = None \<and>
   requests (snd (loadPaginatedTxs fuel net up url page 0 w)) =
     requests w @ map (\<lambda>i. url @ pagination (page + i)) [0..<fuel]"
proof (induction fuel arbitrary: page w)
  case 0
  show ?case by simp
next
  case (Suc fuel)
  have first: "up (length (requests w)) (url @ pagination page) = Inr \<lparr>txs = [], total_count = Some 1\<rparr>"
    using stuck by blast
  obtain w' where w': "getRetry net up (url @ pagination page) 0 w = (Inr \<lparr>txs = [], total_count = Some 1\<rparr>, w')"
     "requests w' = requests w @ [url @ pagination page]"
    using getRetry_first_try [of up w "url @ pagination page" _ net] first by auto
  obtain w'' where w'': "loadPaginatedTxs fuel net up url (Suc page) 0 w' = (None, w'')"
    using Suc.IH [of "Suc page" w'] by (cases "loadPaginatedTxs fuel net up url (Suc page) 0 w'") auto
  have r: "requests w'' = requests w' @ map (\<lambda>i. url @ pagination (Suc page + i)) [0..<fuel]"
    using Suc.IH [of "Suc page" w'] by (simp add: w'')
  have m: "map (\<lambda>i. url @ pagination (page + i)) [0..<Suc fuel] =
        (url @ pagination page) # map (\<lambda>i. url @ pagination (Suc page + i)) [0..<fuel]"
    by (simp add: upt_conv_Cons map_Suc_upt [symmetric] del: upt_Suc)
  show ?case
    unfolding m by (simp add: w' w'' r lessThanNumber_def)
qed

lemma concat_empty_pages: "sum_list (map length ps) = 0 \<Longrightarrow> concat ps = []"
  by (induction ps) auto

lemma pagesFetched_enough:
  "ps \<noteq> [] \<Longrightarrow> n \<le> t + sum_list (map length ps) \<Longrightarrow>
   n \<le> t + length (concat (take (pagesFetched n t ps) ps))"
proof (induction ps arbitrary: t)
  case Nil
  then show ?case by simp
next
  case (Cons p ps)
  show ?case
  proof (cases "length p + t < n")
    case True
    with Cons.prems have ne: "ps \<noteq> []" by auto
    from Cons.prems have "n \<le> (t + length p) + sum_list (map length ps)" by simp
    from Cons.IH [OF ne this] True show ?thesis by simp
  next
    case False
    then show ?thesis by simp
  qed
qed

lemma pagesFetched_exact:
  "n = t + sum_list (map length ps) \<Longrightarrow> concat (take (pagesFetched n t ps) ps) = concat ps"
proof (induction ps arbitrary: t)
  case Nil
  then show ?case by simp
next
  case (Cons p ps)
  show ?case
  proof (cases "length p + t < n")
    case True
    from Cons.prems have "n = (t + length p) + sum_list (map length ps)" by simp
    from Cons.IH [OF this] True show ?thesis by simp
  next
    case False
    with Cons.prems have "sum_list (map length ps) = 0" by simp
    then have "concat ps = []" by (rule concat_empty_pages)
    with False show ?thesis by simp
  qed
qed

lemma pagesFetched_le: "pagesFetched n t ps \<le> length ps"
  by (induction ps arbitrary: t) auto

lemma loadPaginatedTxs_pages:
  assumes "ps \<noteq> []"
    and "n \<le> t + sum_list (map length ps)"
    and "\<forall>k i. i < length ps \<longrightarrow> up k (url @ pagination (page + i)) = Inr \<lparr>txs = ps ! i, total_count = Some (int n)\<rparr>"
    and "pagesFetched n t ps \<le> fuel"
  shows "fst (loadPaginatedTxs fuel net up url page t w) = Some (Inr (concat (take (pagesFetched n t ps) ps))) \<and>
     requests (snd (loadPaginatedTxs fuel net up url page t w)) =
       requests w @ map (\<lambda>i. url @ pagination (page + i)) [0..<pagesFetched n t ps]"
  using assms
proof (induction ps arbitrary: t page w fuel)
  case Nil
  then show ?case by simp
next
  case (Cons p ps)
  from Cons.prems(4) obtain f where fuel: "fuel = Suc f" by (cases fuel) (auto split: if_splits)
  have "up (length (requests w)) (url @ pagination (page + 0)) = Inr \<lparr>txs = (p # ps) ! 0, total_count = Some (int n)\<rparr>"
    using Cons.prems(3) by blast
  then have first: "up (length (requests w)) (url @ pagination page) = Inr \<lparr>txs = p, total_count = Some (int n)\<rparr>"
    by simp
  obtain w' where w': "getRetry net up (url @ pagination page) 0 w = (Inr \<lparr>txs = p, total_count = Some (int n)\<rparr>, w')"
     "requests w' = requests w @ [url @ pagination page]"
    using getRetry_first_try [of up w "url @ pagination page" _ net] first by auto
  show ?case
  proof (cases "length p + t < n")
    case True
    with Cons.prems(2) have ne: "ps \<noteq> []" by auto
    from Cons.prems(2) have le: "n \<le> (t + length p) + sum_list (map length ps)" by simp
    have serve: "\<forall>k i. i < length ps \<longrightarrow> up k (url @ pagination (Suc page + i)) = Inr \<lparr>txs = ps ! i, total_count = Some (int n)\<rparr>"
    proof (intro allI impI)
      fix k i assume "i < length ps"
      then have "up k (url @ pagination (page + Suc i)) = Inr \<lparr>txs = (p # ps) ! Suc i, total_count = Some (int n)\<rparr>"
        using Cons.prems(3) [rule_format, of "Suc i" k] by simp
      then show "up k (url @ pagination (Suc page + i)) = Inr \<lparr>txs = ps ! i, total_count = Some (int n)\<rparr>"
        by simp
    qed
    from Cons.prems(4) True fuel have fl: "pagesFetched n (t + length p) ps \<le> f" by simp
    have m: "map (\<lambda>i. url @ pagination (page + i)) [0..<Suc (pagesFetched n (t + length p) ps)] =
        (url @ pagination page) # map (\<lambda>i. url @ pagination (Suc page + i)) [0..<pagesFetched n (t + length p) ps]"
      by (simp add: upt_conv_Cons map_Suc_upt [symmetric] del: upt_Suc)
    let ?k = "pagesFetched n (t + length p) ps"
    note ih = Cons.IH [OF ne le serve fl, of w']
    obtain w'' where w'': "loadPaginatedTxs f net up url (Suc page) (t + length p) w' = (Some (Inr (concat (take ?k ps))), w'')"
      using ih by (cases "loadPaginatedTxs f net up url (Suc page) (t + length p) w'") auto
    have r: "requests w'' = requests w' @ map (\<lambda>i. url @ pagination (Suc page + i)) [0..<?k]"
      using ih by (simp add: w'')
    have pf: "pagesFetched n t (p # ps) = Suc ?k" using True by simp
    have cond: "lessThanNumber (length p + t) (Some (int n))"
      using True by (simp add: lessThanNumber_def)
    show ?thesis
      unfolding pf m by (simp add: fuel w' w'' r cond)
  next
    case False
    then have cond: "\<not> lessThanNumber (length p + t) (Some (int n))"
      by (simp add: lessThanNumber_def)
    with False show ?thesis
      by (simp add: fuel w')
  qed
qed

text \<open>
  C3: the loop is not bounded. On the upstream whose every page is empty while it reports one
  transaction, no amount of fuel lets \<open>loadPaginatedTxs\<close> return: after \<open>fuel\<close> calls it
  has fetched \<open>fuel\<close> pages, one after the other, and has not returned.
\<close>

theorem loadPaginatedTxs_unbounded:
  "fst (loadPaginatedTxs fuel net (emptyPages :: 'tx txsPage upstream) url page 0 w) = None \<and>
   requests (snd (loadPaginatedTxs fuel net (emptyPages :: 'tx txsPage upstream) url page 0 w)) =
     requests w @ map (\<lambda>i. url @ pagination (page + i)) [0..<fuel]"
proof -
  have "\<forall>k u. (emptyPages :: 'tx txsPage upstream) k u = Inr \<lparr>txs = [], total_count = Some 1\<rparr>"
    by (simp add: emptyPages_def)
  then show ?thesis by (rule loadPaginatedTxs_stuck)
qed

text \<open>
  C4, as amended. For every upstream that reports \<open>total_count = n\<close> and serves the pages
  \<open>ps\<close>, whose lengths sum to at least \<open>n\<close>: the accumulation returns, with fuel for the
  pages it fetches, the concatenation in fetch order of the shortest non-empty run of
  leading pages whose lengths sum to at least \<open>n\<close>. The result has at least \<open>n\<close> elements;
  when the lengths of the pages sum to exactly \<open>n\<close> it is the concatenation of all the
  pages and has exactly \<open>n\<close> elements.
\<close>

theorem loadPaginatedTxs_concatenates:
  assumes "ps \<noteq> []"
    and "n \<le> sum_list (map length ps)"
    and "\<forall>k i. i < length ps \<longrightarrow>
           up k (url @ pagination (1 + i)) = Inr \<lparr>txs = ps ! i, total_count = Some (int n)\<rparr>"
    and "pagesFetched n 0 ps \<le> fuel"
  shows "fst (loadPaginatedTxs fuel net up url 1 0 w) = Some (Inr (concat (take (pagesFetched n 0 ps) ps))) \<and>
     requests (snd (loadPaginatedTxs fuel net up url 1 0 w)) =
       requests w @ map (\<lambda>i. url @ pagination (1 + i)) [0..<pagesFetched n 0 ps] \<and>
     pagesFetched n 0 ps \<le> length ps \<and>
     n \<le> length (concat (take (pagesFetched n 0 ps) ps)) \<and>
     (sum_list (map length ps) = n \<longrightarrow>
        concat (take (pagesFetched n 0 ps) ps) = concat ps \<and> length (concat ps) = n)"
proof -
  have a: "n \<le> 0 + sum_list (map length ps)" using assms(2) by simp
  note main = loadPaginatedTxs_pages [OF assms(1) a assms(3) assms(4), of net w]
  have b: "n \<le> length (concat (take (pagesFetched n 0 ps) ps))"
    using pagesFetched_enough [OF assms(1) a] by simp
  have c: "sum_list (map length ps) = n \<longrightarrow>
        concat (take (pagesFetched n 0 ps) ps) = concat ps \<and> length (concat ps) = n"
    using pagesFetched_exact [of n 0 ps] by (auto simp: length_concat)
  from main b c pagesFetched_le [of n 0 ps] show ?thesis by simp
qed

lemma pagination_1: "pagination (Suc 0) = ''&limit=1000000000&page=1''" by code_simp
lemma pagination_2: "pagination (Suc (Suc 0)) = ''&limit=1000000000&page=2''" by code_simp

lemma twoPages_serves:
  "\<forall>k i. i < length [p1, p2] \<longrightarrow>
      twoPages p1 p2 (int n) k (''/txs?sender=a'' @ pagination (1 + i)) =
        Inr \<lparr>txs = [p1, p2] ! i, total_count = Some (int n)\<rparr>"
proof (intro allI impI)
  fix k i :: nat
  assume "i < length [p1, p2]"
  then consider "i = 0" | "i = 1" by fastforce
  then show "twoPages p1 p2 (int n) k (''/txs?sender=a'' @ pagination (1 + i)) =
        Inr \<lparr>txs = [p1, p2] ! i, total_count = Some (int n)\<rparr>"
  proof cases
    case 1
    then show ?thesis by (simp add: twoPages_def pagination_1)
  next
    case 2
    then show ?thesis by (simp add: twoPages_def pagination_2)
  qed
qed

text \<open>A run of C4: the pages \<open>[1, 2]\<close> and \<open>[3]\<close> with a total of 3.\<close>

theorem loadPaginatedTxs_example:
  "fst (loadPaginatedTxs 2 cosmosHub (twoPages [1, 2] [3] 3) ''/txs?sender=a'' 1 0 startWorld) = Some (Inr [1, 2, 3]) \<and>
   requests (snd (loadPaginatedTxs 2 cosmosHub (twoPages [1, 2] [3] 3) ''/txs?sender=a'' 1 0 startWorld)) =
     [''/txs?sender=a&limit=1000000000&page=1'', ''/txs?sender=a&limit=1000000000&page=2'']"
proof -
  have pf: "pagesFetched 3 0 [[1, 2], [3 :: nat]] = 2" by simp
  have ur: "map (\<lambda>i. ''/txs?sender=a'' @ pagination (1 + i)) [0..<2] =
     [''/txs?sender=a&limit=1000000000&page=1'', ''/txs?sender=a&limit=1000000000&page=2'']"
    using pagination_1 pagination_2 by (simp add: upt_conv_Cons numeral_2_eq_2)
  show ?thesis
    using loadPaginatedTxs_concatenates [where ps = "[[1, 2], [3]]" and n = 3 and up = "twoPages [1, 2] [3] 3"
        and url = "''/txs?sender=a''" and fuel = 2 and net = cosmosHub and w = startWorld]
      twoPages_serves [of "[1, 2]" "[3]" 3]
    unfolding pf ur by (simp add: startWorld_def)
qed

text \<open>
  Against C4 as stated: the pages \<open>[1, 2, 3]\<close> and \<open>[4, 5, 6]\<close> with a reported total of 5
  sum to at least 5, and the result has 6 elements, not exactly 5.
\<close>

theorem loadPaginatedTxs_overshoots:
  "fst (loadPaginatedTxs 2 cosmosHub (twoPages [1, 2, 3] [4, 5, 6] 5) ''/txs?sender=a'' 1 0 startWorld) =
     Some (Inr [1, 2, 3, 4, 5, 6])"
proof -
  have pf: "pagesFetched 5 0 [[1, 2, 3], [4, 5, 6 :: nat]] = 2" by simp
  show ?thesis
    using loadPaginatedTxs_pages [where ps = "[[1, 2, 3], [4, 5, 6]]" and n = 5 and t = 0
        and up = "twoPages [1, 2, 3] [4, 5, 6] 5"
        and url = "''/txs?sender=a''" and fuel = 2 and net = cosmosHub and w = startWorld and page = 1]
      twoPages_serves [of "[1, 2, 3]" "[4, 5, 6]" 5]
    unfolding pf by simp
qed

section \<open>Objects\<close>

lemma setProperty_update: "setProperty k v obj = AList.update k v obj"
  by (induction obj) auto

lemma getProperty_setProperty:
  "getProperty (setProperty k v obj) k' = (if k' = k then Some v else getProperty obj k')"
  by (simp add: getProperty_def setProperty_update update_conv')



lemma mset_entries: "mset (entries obj) = mset obj"
  by (simp add: entries_def)

lemma set_entries: "set (entries obj) = set obj"
  using mset_entries [of obj] by (metis set_mset_mset)


section \<open>Decimal rendering\<close>














section \<open>Reward aggregation\<close>

lemma orZero_simps [simp]: "orZero None = 0" "orZero (Some x) = x"
  by (simp_all add: orZero_def)

lemma getProperty_Nil [simp]: "getProperty [] k = None"
  by (simp add: getProperty_def)



















section \<open>The token-weighted tally\<close>






section \<open>Self stake\<close>

lemma getSelfStake_error:
  assumes "fst (query net up (selfDelegationUrl (encode (decode (operatorAddress val)) (address_prefix net)) (operatorAddress val)) w) = Inl e"
  shows "fst (getSelfStake net up decode encode delegationReducer val w) = selfStakeHandler e"
proof -
  let ?url = "selfDelegationUrl (encode (decode (operatorAddress val)) (address_prefix net)) (operatorAddress val)"
  obtain res w' where q: "query net up ?url w = (res, w')" by (cases "query net up ?url w")
  with assms have "res = Inl e" by simp
  then show ?thesis by (simp add: getSelfStake_def Let_def q)
qed

lemma getSelfStake_success:
  assumes "fst (query net up (selfDelegationUrl (encode (decode (operatorAddress val)) (address_prefix net)) (operatorAddress val)) w) = Inr selfDelegation"
  shows "fst (getSelfStake net up decode encode delegationReducer val w) =
     Inr (ReducedAmount (delegation_amount (delegationReducer selfDelegation val ACTIVE)))"
proof -
  let ?url = "selfDelegationUrl (encode (decode (operatorAddress val)) (address_prefix net)) (operatorAddress val)"
  obtain res w' where q: "query net up ?url w = (res, w')" by (cases "query net up ?url w")
  with assms have "res = Inr selfDelegation" by simp
  then show ?thesis by (simp add: getSelfStake_def Let_def q)
qed

text \<open>
  C8: not every other upstream error reaches the caller unmodified. When all attempts of the
  self-delegation query end in a status 500 whose body's error text is not JSON,
  \<open>getSelfStake\<close> throws the \<^verbatim>\<open>SyntaxError\<close> of \<^verbatim>\<open>JSON.parse\<close> in place of the error
  caught.
\<close>

theorem getSelfStake_unparsable_body:
  "fst (getSelfStake cosmosHub (\<lambda>k u. Inl (HttpError 500 NotJson) :: jsError + nat)
         (\<lambda>s. s) (\<lambda>h p. p @ h) (\<lambda>r v a. \<lparr>delegation_amount = r\<rparr>)
         \<lparr>operatorAddress = ''cosmosvaloper1xyz''\<rparr> startWorld) = Inl SyntaxError"
proof -
  have "fst (query cosmosHub (\<lambda>k u. Inl (HttpError 500 NotJson) :: jsError + nat)
          (selfDelegationUrl (address_prefix cosmosHub @ ''cosmosvaloper1xyz'') ''cosmosvaloper1xyz'') startWorld)
        = Inl (HttpError 500 NotJson)"
    by (rule query_all_fail) simp
  then show ?thesis
    using getSelfStake_error [where net = cosmosHub and up = "\<lambda>k u. Inl (HttpError 500 NotJson) :: jsError + nat"
      and encode = "\<lambda>h p. p @ h" and decode = "\<lambda>s. s" and val = "\<lparr>operatorAddress = ''cosmosvaloper1xyz''\<rparr>"
      and w = startWorld and e = "HttpError 500 NotJson" and delegationReducer = "\<lambda>r v a. \<lparr>delegation_amount = r\<rparr>"]
    by (simp add: selfStakeHandler_def)
qed

section \<open>Signing info\<close>

lemma getProperty_fold_setProperty:
  "k \<notin> fst ` set ps \<Longrightarrow>
   getProperty (foldl (\<lambda>obj p. setProperty (fst p) (snd p) obj) target ps) k = getProperty target k"
  by (induction ps arbitrary: target) (auto simp: getProperty_setProperty)

lemma getProperty_spread_other:
  "k \<notin> fst ` set source \<Longrightarrow> getProperty (spread target source) k = getProperty target k"
  unfolding spread_def by (rule getProperty_fold_setProperty) (simp add: set_entries)

lemma signingInfo_result:
  "fst (getValidatorSigningInfo net up pubkeyToAddress key w) =
     (if key \<in> set exceptions \<or> isl (fst (query net up (signingInfoUrl key) w))
      then signingInfoCatch net pubkeyToAddress key
      else (case pubkeyToAddress key (validatorConsensusBech32Prefix net) of
              Inl thrown \<Rightarrow> Inl thrown
            | Inr address \<Rightarrow>
                Inr (spread [(''address'', JString address)] (projr (fst (query net up (signingInfoUrl key) w))))))"
proof -
  obtain res w' where q: "query net up (signingInfoUrl key) w = (res, w')"
    by (cases "query net up (signingInfoUrl key) w")
  show ?thesis
    by (cases res; cases "pubkeyToAddress key (validatorConsensusBech32Prefix net)")
       (simp_all add: getValidatorSigningInfo_def q signingInfoCatch_def)
qed

text \<open>
  C9, as amended. For every consensus public key whose address derivation returns:
  \<open>getValidatorSigningInfo\<close> never passes an error on. If the key is one of the two
  exceptions or the signing-info query fails, it returns the default record: the derived
  address, \<open>missed_blocks_counter\<close> \<open>'0'\<close> and \<open>start_height\<close> \<open>'0'\<close>. Otherwise it returns
  the derived address spread over by the answer, in which the address is the derived one
  whenever the answer has no \<open>address\<close> of its own.
\<close>

theorem getValidatorSigningInfo_default_or_spread:
  assumes "pubkeyToAddress key (validatorConsensusBech32Prefix net) = Inr address"
  shows "\<exists>info. fst (getValidatorSigningInfo net up pubkeyToAddress key w) = Inr info \<and>
     (key \<in> set exceptions \<or> isl (fst (query net up (signingInfoUrl key) w)) \<longrightarrow>
        info = [(''address'', JString address), (''missed_blocks_counter'', JString ''0''),
                (''start_height'', JString ''0'')]) \<and>
     (\<forall>response. key \<notin> set exceptions \<and> fst (query net up (signingInfoUrl key) w) = Inr response \<longrightarrow>
        info = spread [(''address'', JString address)] response \<and>
        (''address'' \<notin> fst ` set response \<longrightarrow> getProperty info ''address'' = Some (JString address)))"
proof (cases "key \<in> set exceptions \<or> isl (fst (query net up (signingInfoUrl key) w))")
  case True
  then show ?thesis
    using assms by (auto simp: signingInfo_result signingInfoCatch_def)
next
  case False
  then obtain response where r: "fst (query net up (signingInfoUrl key) w) = Inr response"
    by (cases "fst (query net up (signingInfoUrl key) w)") auto
  have "''address'' \<notin> fst ` set response \<Longrightarrow>
      getProperty (spread [(''address'', JString address)] response) ''address'' = Some (JString address)"
    by (simp add: getProperty_spread_other) (simp add: getProperty_def)
  with False r show ?thesis
    using assms by (simp add: signingInfo_result)
qed

text \<open>
  Two runs of C9: an upstream that always answers 500 gives the default record; an answer
  without an address gives a record with the derived address.
\<close>

theorem getValidatorSigningInfo_examples:
  "fst (getValidatorSigningInfo cosmosHub (\<lambda>k u. Inl (HttpError 500 NotJson)) exampleAddress
          ''cosmosvalconspub1abc'' startWorld) =
     Inr [(''address'', JString ''cosmosvalcons1cosmosvalconspub1abc''),
          (''missed_blocks_counter'', JString ''0''), (''start_height'', JString ''0'')] \<and>
   getProperty (projr (fst (getValidatorSigningInfo cosmosHub
          (\<lambda>k u. Inr [(''start_height'', JString ''7''), (''missed_blocks_counter'', JString ''3'')])
          exampleAddress ''cosmosvalconspub1abc'' startWorld))) ''address'' =
     Some (JString ''cosmosvalcons1cosmosvalconspub1abc'')"
proof -
  let ?down = "(\<lambda>k u. Inl (HttpError 500 NotJson)) :: json object upstream"
  let ?up = "(\<lambda>k u. Inr [(''start_height'', JString ''7''), (''missed_blocks_counter'', JString ''3'')]) :: json object upstream"
  have d: "exampleAddress ''cosmosvalconspub1abc'' (validatorConsensusBech32Prefix cosmosHub) =
      Inr ''cosmosvalcons1cosmosvalconspub1abc''"
    by (simp add: exampleAddress_def validatorConsensusBech32Prefix_def cosmosHub_def)
  have e: "''cosmosvalconspub1abc'' \<notin> set exceptions" by (simp add: exceptions_def)
  have q1: "fst (query cosmosHub ?down (signingInfoUrl ''cosmosvalconspub1abc'') startWorld) = Inl (HttpError 500 NotJson)"
    by (rule query_all_fail) simp
  have q2: "fst (query cosmosHub ?up (signingInfoUrl ''cosmosvalconspub1abc'') startWorld) =
      Inr [(''start_height'', JString ''7''), (''missed_blocks_counter'', JString ''3'')]"
    by (rule query_first_try) simp
  from getValidatorSigningInfo_default_or_spread
      [where pubkeyToAddress = exampleAddress and key = "''cosmosvalconspub1abc''" and net = cosmosHub
        and address = "''cosmosvalcons1cosmosvalconspub1abc''" and up = ?down and w = startWorld] d q1
  have 1: "fst (getValidatorSigningInfo cosmosHub ?down exampleAddress ''cosmosvalconspub1abc'' startWorld) =
     Inr [(''address'', JString ''cosmosvalcons1cosmosvalconspub1abc''),
          (''missed_blocks_counter'', JString ''0''), (''start_height'', JString ''0'')]"
    by auto
  from getValidatorSigningInfo_default_or_spread
      [where pubkeyToAddress = exampleAddress and key = "''cosmosvalconspub1abc''" and net = cosmosHub
        and address = "''cosmosvalcons1cosmosvalconspub1abc''" and up = ?up and w = startWorld] d q2 e
  have 2: "getProperty (projr (fst (getValidatorSigningInfo cosmosHub ?up exampleAddress
          ''cosmosvalconspub1abc'' startWorld))) ''address'' =
     Some (JString ''cosmosvalcons1cosmosvalconspub1abc'')"
    by auto
  from 1 2 show ?thesis by (rule conjI)
qed

lemma spread_example:
  "spread [(''address'', JString ''cosmosvalcons1derived'')]
     [(''address'', JString ''cosmosvalcons1other''), (''missed_blocks_counter'', JString ''3'')] =
   [(''address'', JString ''cosmosvalcons1other''), (''missed_blocks_counter'', JString ''3'')]"
  by code_simp

text \<open>
  Against C9 as stated: when the answer has an \<open>address\<close> of its own, the record returned
  holds that address and not the one derived from the public key.
\<close>

theorem getValidatorSigningInfo_address_overridden:
  "fst (getValidatorSigningInfo cosmosHub
      (\<lambda>k u. Inr [(''address'', JString ''cosmosvalcons1other''), (''missed_blocks_counter'', JString ''3'')])
      (\<lambda>key prefix. Inr ''cosmosvalcons1derived'') ''cosmosvalconspub1abc'' startWorld) =
   Inr [(''address'', JString ''cosmosvalcons1other''), (''missed_blocks_counter'', JString ''3'')]"
proof -
  have q: "fst (query cosmosHub
      (\<lambda>k u. Inr [(''address'', JString ''cosmosvalcons1other''), (''missed_blocks_counter'', JString ''3'')])
      (signingInfoUrl ''cosmosvalconspub1abc'') startWorld) =
      (Inr [(''address'', JString ''cosmosvalcons1other''), (''missed_blocks_counter'', JString ''3'')] :: jsError + json object)"
    by (rule query_first_try) simp
  have e: "''cosmosvalconspub1abc'' \<notin> set exceptions" by (simp add: exceptions_def)
  show ?thesis
    by (simp only: signingInfo_result q e spread_example sum.sel sum.case sum.disc if_False simp_thms)
qed

section \<open>Delegations of a delegator\<close>

text \<open>
  C10. For an address of the network and a query that returns: the result is one reduced
  \<open>ACTIVE\<close> delegation for each raw delegation whose balance is at least 1, in the order
  of the input; the others are dropped; and a null answer gives the empty list.
\<close>

theorem getDelegationsForDelegatorAddress_filters:
  assumes "startsWith address (address_prefix net)"
    and "fst (query net up (delegationsUrl address) w) = Inr response"
  shows "fst (getDelegationsForDelegatorAddress net up storeValidators delegationReducer address w) =
      Inr (map (\<lambda>d. delegationReducer d (storeValidators (validator_address d)) ACTIVE)
            (filter (\<lambda>d. isGreaterThanOrEqualTo (balance d) 1)
               (case response of None \<Rightarrow> [] | Some delegations \<Rightarrow> delegations))) \<and>
     (\<forall>v. isGreaterThanOrEqualTo (Finite v) 1 = (1 \<le> v)) \<and> \<not> isGreaterThanOrEqualTo NaN 1"
proof -
  obtain res w' where q: "query net up (delegationsUrl address) w = (res, w')"
    by (cases "query net up (delegationsUrl address) w")
  with assms(2) have res: "res = Inr response" by simp
  show ?thesis
    using assms(1)
    by (simp add: getDelegationsForDelegatorAddress_def checkAddress_def q res orElse_def
        isGreaterThanOrEqualTo_def split: option.splits)
qed

text \<open>
  A run of C10: of the balances 5, 1/2, 1 and \<^verbatim>\<open>NaN\<close> the first and the third are kept, in
  that order; a null answer gives the empty list.
\<close>

theorem getDelegationsForDelegatorAddress_example:
  "fst (getDelegationsForDelegatorAddress cosmosHub (\<lambda>k u. Inr (Some exampleDelegations))
          exampleStore keepAll ''cosmos1xyz'' startWorld) =
     Inr [(''cosmosvaloper1a'', Some 1, ACTIVE), (''cosmosvaloper1c'', None, ACTIVE)] \<and>
   fst (getDelegationsForDelegatorAddress cosmosHub (\<lambda>k u. Inr None)
          exampleStore keepAll ''cosmos1xyz'' startWorld) = Inr []"
proof -
  have a: "startsWith ''cosmos1xyz'' (address_prefix cosmosHub)"
    by (simp add: startsWith_def cosmosHub_def)
  have q1: "fst (query cosmosHub (\<lambda>k u. Inr (Some exampleDelegations)) (delegationsUrl ''cosmos1xyz'') startWorld) =
      Inr (Some exampleDelegations)"
    by (rule query_first_try) simp
  have q2: "fst (query cosmosHub (\<lambda>k u. Inr None) (delegationsUrl ''cosmos1xyz'') startWorld) =
      (Inr None :: jsError + rawDelegation list option)"
    by (rule query_first_try) simp
  show ?thesis
    using getDelegationsForDelegatorAddress_filters [OF a q1, of exampleStore keepAll]
      getDelegationsForDelegatorAddress_filters [OF a q2, of exampleStore keepAll]
    by (simp add: exampleDelegations_def isGreaterThanOrEqualTo_def keepAll_def exampleStore_def)
qed

end
